theory Spec2Isabelle
  imports Complex_Main "HOL-Library.Sublist" "HOL-Library.AList"
begin

section \<open>JavaScript values as the deployment scripts read them\<close>

text \<open>
  \<open>build-optimizer.js\<close> and \<open>deployment-verification.js\<close> are ES modules (strict mode)
  that read JSON files with \<open>JSON.parse\<close> and inspect the result with property reads
  and truthiness tests. A parsed JSON value is a \<open>json\<close>; a JavaScript value that may
  also be \<open>undefined\<close> is a \<open>json option\<close>, with \<open>None\<close> for \<open>undefined\<close>. An object is
  the list of its own properties in property order, one entry per key.
\<close>

datatype json =
    JNull
  | JBool bool
  | JNum real
  | JStr string
  | JArr "json list"
  | JObj "(string \<times> json) list"

datatype js_error = TypeError | SyntaxError | IOError

text \<open>\<open>!x\<close> is \<open>\<not> truthy x\<close>: undefined, null, false, 0 and the empty string are falsy.\<close>

fun truthy :: "json option \<Rightarrow> bool" where
  "truthy None = False"
| "truthy (Some JNull) = False"
| "truthy (Some (JBool b)) = b"
| "truthy (Some (JNum n)) = (n \<noteq> 0)"
| "truthy (Some (JStr s)) = (s \<noteq> [])"
| "truthy (Some (JArr xs)) = True"
| "truthy (Some (JObj kvs)) = True"

text \<open>
  A property read \<open>x.k\<close> or \<open>x[k]\<close>. Reading from undefined or null throws a TypeError;
  reading from an object looks the key up; reading from a primitive or an array gives
  undefined. This is the read for the property names the scripts use (dependencies,
  scripts, postinstall, engines, node, type, main, compilerOptions, target,
  skipLibCheck and the package names), none of which is inherited from a prototype.
\<close>

fun get_prop :: "json option \<Rightarrow> string \<Rightarrow> js_error + json option" where
  "get_prop None k = Inl TypeError"
| "get_prop (Some JNull) k = Inl TypeError"
| "get_prop (Some (JObj kvs)) k = Inr (map_of kvs k)"
| "get_prop (Some (JBool b)) k = Inr None"
| "get_prop (Some (JNum n)) k = Inr None"
| "get_prop (Some (JStr s)) k = Inr None"
| "get_prop (Some (JArr xs)) k = Inr None"

text \<open>
  A property write \<open>x.k = v\<close> in strict mode, as \<open>JSON.stringify\<close> sees \<open>x\<close> afterwards.
  On an object the key keeps its place, or is appended when new. On an array a named
  property is set but never serialised. On a primitive the write throws a TypeError.
\<close>

fun set_prop :: "json \<Rightarrow> string \<Rightarrow> json \<Rightarrow> js_error + json" where
  "set_prop (JObj kvs) k v = Inr (JObj (AList.update k v kvs))"
| "set_prop (JArr xs) k v = Inr (JArr xs)"
| "set_prop JNull k v = Inl TypeError"
| "set_prop (JBool b) k v = Inl TypeError"
| "set_prop (JNum n) k v = Inl TypeError"
| "set_prop (JStr s) k v = Inl TypeError"

text \<open>\<open>xs.filter(p)\<close> where the callback may throw: the first throw ends the filter.\<close>

fun filter_throwing :: "('a \<Rightarrow> js_error + bool) \<Rightarrow> 'a list \<Rightarrow> js_error + 'a list" where
  "filter_throwing p [] = Inr []"
| "filter_throwing p (x # xs) =
     (case p x of
        Inl e \<Rightarrow> Inl e
      | Inr b \<Rightarrow>
          (case filter_throwing p xs of
             Inl e \<Rightarrow> Inl e
           | Inr ys \<Rightarrow> Inr (if b then x # ys else ys)))"

text \<open>\<open>xs.join(sep)\<close>.\<close>

fun join :: "string \<Rightarrow> string list \<Rightarrow> string" where
  "join sep [] = []"
| "join sep [x] = x"
| "join sep (x # y # ys) = x @ sep @ join sep (y # ys)"

text \<open>\<open>s.includes(p)\<close>: \<open>p\<close> occurs in \<open>s\<close> as a contiguous substring.\<close>

fun str_includes :: "string \<Rightarrow> string \<Rightarrow> bool" where
  "str_includes [] p = (p = [])"
| "str_includes (c # cs) p = (prefix p (c # cs) \<or> str_includes cs p)"

text \<open>
  The files under the script's directory: a path holds a regular file with its text, or
  a directory. \<open>fs.existsSync\<close> is true for both; reading a directory fails.
\<close>

datatype node = File string | Dir

type_synonym files = "string \<rightharpoonup> node"

definition existsSync :: "files \<Rightarrow> string \<Rightarrow> bool" where
  "existsSync fs p = (fs p \<noteq> None)"

text \<open>The counters both script classes keep: \<open>this.errors\<close> and \<open>this.warnings\<close>.\<close>

record report =
  errors :: "string list"
  warnings :: "string list"

section \<open>build-optimizer.js\<close>

record optimizer = report +
  optimizations :: "string list"

definition buildDeps :: "string list" where
  "buildDeps = [''vite'', ''esbuild'', ''typescript'', ''tsx'',
                ''tailwindcss'', ''autoprefixer'', ''postcss'',
                ''@vitejs/plugin-react'']"

definition postinstall_script :: string where
  \<open>postinstall_script = ''echo "Production build ready"''\<close>

text \<open>
  Line 80: \<open>buildDeps.filter(dep => !packageJson.dependencies[dep])\<close>.
\<close>

definition missing_deps :: "json \<Rightarrow> js_error + string list" where
  "missing_deps packageJson =
     filter_throwing
       (\<lambda>dep. case get_prop (Some packageJson) ''dependencies'' of
                 Inl e \<Rightarrow> Inl e
               | Inr deps \<Rightarrow>
                   (case get_prop deps dep of
                      Inl e \<Rightarrow> Inl e
                    | Inr v \<Rightarrow> Inr (\<not> truthy v)))
       buildDeps"

text \<open>
  Lines 88 to 91: when \<open>packageJson.scripts.postinstall\<close> is falsy it is assigned. The
  result is the value \<open>JSON.stringify\<close> will see and whether the assignment ran.
\<close>

definition ensure_postinstall :: "json \<Rightarrow> js_error + json \<times> bool" where
  "ensure_postinstall packageJson =
     (case get_prop (Some packageJson) ''scripts'' of
        Inl e \<Rightarrow> Inl e
      | Inr scripts \<Rightarrow>
          (case get_prop scripts ''postinstall'' of
             Inl e \<Rightarrow> Inl e
           | Inr postinstall \<Rightarrow>
               if \<not> truthy postinstall
               then (case scripts of
                       None \<Rightarrow> Inl TypeError
                     | Some sc \<Rightarrow>
                         (case set_prop sc ''postinstall'' (JStr postinstall_script) of
                            Inl e \<Rightarrow> Inl e
                          | Inr sc' \<Rightarrow>
                              (case set_prop packageJson ''scripts'' sc' of
                                 Inl e \<Rightarrow> Inl e
                               | Inr packageJson' \<Rightarrow> Inr (packageJson', True))))
               else Inr (packageJson, False)))"

text \<open>Line 94: \<open>!packageJson.engines || !packageJson.engines.node\<close>.\<close>

definition engines_unspecified :: "json \<Rightarrow> js_error + bool" where
  "engines_unspecified packageJson =
     (case get_prop (Some packageJson) ''engines'' of
        Inl e \<Rightarrow> Inl e
      | Inr engines \<Rightarrow>
          if \<not> truthy engines then Inr True
          else (case get_prop engines ''node'' of
                  Inl e \<Rightarrow> Inl e
                | Inr n \<Rightarrow> Inr (\<not> truthy n)))"

text \<open>
  \<open>BuildOptimizer.optimizePackageJson\<close>. \<open>JSON.parse\<close> and \<open>JSON.stringify(_, null, 2)\<close>
  belong to the platform and are parameters: \<open>parse\<close> gives \<open>None\<close> where \<open>JSON.parse\<close>
  throws a SyntaxError. The result is \<open>Inl\<close> when the method throws (the promise
  rejects), which happens before the only write, so the files are then as they were.
\<close>

definition optimizePackageJson ::
  "(string \<Rightarrow> json option) \<Rightarrow> (json \<Rightarrow> string) \<Rightarrow> files \<Rightarrow> optimizer
     \<Rightarrow> js_error + files \<times> optimizer" where
  "optimizePackageJson parse stringify fs st =
     (case fs ''package-render.json'' of
        None \<Rightarrow> Inr (fs, st\<lparr>errors := errors st @ [''package-render.json not found'']\<rparr>)
      | Some Dir \<Rightarrow> Inl IOError
      | Some (File content) \<Rightarrow>
     (case parse content of
        None \<Rightarrow> Inl SyntaxError
      | Some packageJson \<Rightarrow>
     (case missing_deps packageJson of
        Inl e \<Rightarrow> Inl e
      | Inr missing \<Rightarrow>
     (case ensure_postinstall packageJson of
        Inl e \<Rightarrow> Inl e
      | Inr (packageJson', added) \<Rightarrow>
     (case engines_unspecified packageJson' of
        Inl e \<Rightarrow> Inl e
      | Inr unspecified \<Rightarrow>
          Inr (fs(''package-render.json'' \<mapsto> File (stringify packageJson')),
               st\<lparr>errors := errors st
                      @ (if length missing > 0
                         then [''Missing build dependencies: '' @ join '', '' missing]
                         else []),
                   warnings := warnings st
                      @ (if unspecified
                         then [''Node.js version not specified in engines'']
                         else []),
                   optimizations := optimizations st
                      @ (if length missing > 0 then []
                         else [''All build dependencies verified''])
                      @ (if added then [''Added postinstall script''] else [])\<rparr>))))))"

subsection \<open>A concrete excerpt of JSON.parse and JSON.stringify\<close>

text \<open>
  An excerpt of the JSON codec for concrete runs: texts with the value \<open>JSON.parse\<close> gives
  for them; the first text listed for a value is what \<open>JSON.stringify(value, null, 2)\<close>
  returns.
\<close>

definition nl :: string where
  "nl = [CHR 0x0A]"

definition value_before :: json where
  "value_before = JObj [(''dependencies'', JObj []), (''scripts'', JObj [])]"

definition value_empty :: json where
  "value_empty = JObj [(''dependencies'', JObj []),
                       (''scripts'', JObj [(''postinstall'', JStr [])])]"

definition value_after :: json where
  "value_after = JObj [(''dependencies'', JObj []),
                       (''scripts'', JObj [(''postinstall'', JStr postinstall_script)])]"

definition text_before :: string where
  \<open>text_before = ''{"dependencies":{},"scripts":{}}''\<close>

definition text_empty :: string where
  \<open>text_empty = ''{"dependencies":{},"scripts":{"postinstall":""}}''\<close>

definition text_after :: string where
  \<open>text_after =
     join nl [''{'',
              ''  "dependencies": {},'',
              ''  "scripts": {'',
              ''    "postinstall": "echo '' @ [CHR 0x5C] @ ''"Production build ready''
                 @ [CHR 0x5C] @ ''""'',
              ''  }'',
              ''}'']\<close>

definition text_no_scripts :: string where
  \<open>text_no_scripts = ''{"dependencies":{}}''\<close>

definition value_no_scripts :: json where
  "value_no_scripts = JObj [(''dependencies'', JObj [])]"

definition pretty_before :: string where
  \<open>pretty_before =
     join nl [''{'',
              ''  "dependencies": {},'',
              ''  "scripts": {}'',
              ''}'']\<close>

definition pretty_empty :: string where
  \<open>pretty_empty =
     join nl [''{'',
              ''  "dependencies": {},'',
              ''  "scripts": {'',
              ''    "postinstall": ""'',
              ''  }'',
              ''}'']\<close>

definition pretty_no_scripts :: string where
  \<open>pretty_no_scripts =
     join nl [''{'',
              ''  "dependencies": {}'',
              ''}'']\<close>

definition json_excerpt :: "(string \<times> json) list" where
  "json_excerpt =
     [(text_after, value_after),
      (pretty_before, value_before), (text_before, value_before),
      (pretty_empty, value_empty), (text_empty, value_empty),
      (pretty_no_scripts, value_no_scripts), (text_no_scripts, value_no_scripts)]"

definition excerpt_parse :: "string \<Rightarrow> json option" where
  "excerpt_parse s = map_of json_excerpt s"

text \<open>
  The first text listed for a value is its serialisation with two spaces of
  indentation; a value outside the excerpt has none here (the empty text).
\<close>

definition excerpt_stringify :: "json \<Rightarrow> string" where
  "excerpt_stringify v =
     (case find (\<lambda>e. snd e = v) json_excerpt of Some e \<Rightarrow> fst e | None \<Rightarrow> [])"

definition fresh :: optimizer where
  "fresh = \<lparr>errors = [], warnings = [], optimizations = []\<rparr>"

lemmas excerpt_defs =
  excerpt_parse_def excerpt_stringify_def json_excerpt_def text_after_def text_before_def
  text_empty_def value_after_def value_before_def value_empty_def nl_def fresh_def
  text_no_scripts_def value_no_scripts_def pretty_before_def pretty_empty_def
  pretty_no_scripts_def

lemmas optimizer_defs =
  optimizePackageJson_def missing_deps_def ensure_postinstall_def engines_unspecified_def
  buildDeps_def

subsection \<open>What optimizePackageJson writes\<close>

lemma ensure_postinstall_object:
  assumes "ensure_postinstall v = Inr r"
  shows "\<exists>kvs sc. v = JObj kvs \<and> map_of kvs ''scripts'' = Some sc"
proof (cases v)
  case (JObj kvs)
  with assms show ?thesis
    by (cases "map_of kvs ''scripts''") (simp_all add: ensure_postinstall_def)
qed (use assms in \<open>simp_all add: ensure_postinstall_def\<close>)

lemma ensure_postinstall_eq:
  assumes "map_of kvs ''scripts'' = Some sc"
  shows "ensure_postinstall (JObj kvs) =
     (case sc of
        JObj ps \<Rightarrow>
          if truthy (map_of ps ''postinstall'') then Inr (JObj kvs, False)
          else Inr (JObj (AList.update ''scripts''
                 (JObj (AList.update ''postinstall'' (JStr postinstall_script) ps)) kvs), True)
      | JArr xs \<Rightarrow> Inr (JObj kvs, True)
      | _ \<Rightarrow> Inl TypeError)"
  using assms by (cases sc) (simp_all add: ensure_postinstall_def update_triv)


lemma missing_deps_cong:
  "get_prop (Some v') ''dependencies'' = get_prop (Some v) ''dependencies''
   \<Longrightarrow> missing_deps v' = missing_deps v"
  by (simp add: missing_deps_def)

lemma ensure_postinstall_other_fields:
  assumes "ensure_postinstall v = Inr (v', added)" "k \<noteq> ''scripts''"
  shows "get_prop (Some v') k = get_prop (Some v) k"
proof -
  from ensure_postinstall_object[OF assms(1)] obtain kvs sc where
    v: "v = JObj kvs" and sc: "map_of kvs ''scripts'' = Some sc" by blast
  from assms(1) show ?thesis
    unfolding v ensure_postinstall_eq[OF sc] using assms(2)
    by (cases sc) (auto simp: update_conv' split: if_splits)
qed

lemma ensure_postinstall_again:
  assumes "ensure_postinstall v = Inr (v', added)"
  shows "\<exists>added'. ensure_postinstall v' = Inr (v', added')"
proof -
  from ensure_postinstall_object[OF assms(1)] obtain kvs sc where
    v: "v = JObj kvs" and sc: "map_of kvs ''scripts'' = Some sc" by blast
  show ?thesis
  proof (cases sc)
    case (JObj ps)
    show ?thesis
    proof (cases "truthy (map_of ps ''postinstall'')")
      case True
      have "ensure_postinstall v = Inr (v, False)"
        using True by (simp add: v JObj ensure_postinstall_eq[OF sc])
      with assms show ?thesis by auto
    next
      case False
      let ?ps = "AList.update ''postinstall'' (JStr postinstall_script) ps"
      let ?kvs = "AList.update ''scripts'' (JObj ?ps) kvs"
      from False assms v sc JObj have v': "v' = JObj ?kvs"
        by (simp add: ensure_postinstall_eq[OF sc])
      have "map_of ?kvs ''scripts'' = Some (JObj ?ps)" by (simp add: update_conv')
      from ensure_postinstall_eq[OF this]
      have "ensure_postinstall (JObj ?kvs) = Inr (JObj ?kvs, False)"
        by (simp add: update_conv' postinstall_script_def)
      with v' show ?thesis by auto
    qed
  next
    case (JArr xs)
    have "ensure_postinstall v = Inr (v, True)"
      by (simp add: v JArr ensure_postinstall_eq[OF sc])
    with assms show ?thesis by auto
  qed (use assms v sc in \<open>simp_all add: ensure_postinstall_eq[OF sc]\<close>)
qed

lemma ensure_postinstall_scripts:
  assumes "ensure_postinstall v = Inr (v', added)"
  shows "\<exists>sc sc'.
           get_prop (Some v) ''scripts'' = Inr (Some sc)
         \<and> get_prop (Some v') ''scripts'' = Inr (Some sc')
         \<and> (\<forall>k. k \<noteq> ''postinstall'' \<longrightarrow> get_prop (Some sc') k = get_prop (Some sc) k)
         \<and> (\<forall>p. get_prop (Some sc) ''postinstall'' = Inr p \<and> truthy p \<longrightarrow> v' = v)
         \<and> (\<forall>ps. sc = JObj ps \<and> \<not> truthy (map_of ps ''postinstall'')
                \<longrightarrow> get_prop (Some sc') ''postinstall'' = Inr (Some (JStr postinstall_script)))
         \<and> (\<forall>xs. sc = JArr xs \<longrightarrow> v' = v)
         \<and> ((\<exists>ps. sc = JObj ps) \<or> (\<exists>xs. sc = JArr xs))"
proof -
  from ensure_postinstall_object[OF assms(1)] obtain kvs sc where
    v: "v = JObj kvs" and sc: "map_of kvs ''scripts'' = Some sc" by blast
  have a: "get_prop (Some v) ''scripts'' = Inr (Some sc)" by (simp add: v sc)
  show ?thesis
  proof (cases sc)
    case (JObj ps)
    show ?thesis
    proof (cases "truthy (map_of ps ''postinstall'')")
      case True
      with assms v sc JObj have "v' = v" by (simp add: ensure_postinstall_eq[OF sc])
      with a True JObj show ?thesis by auto
    next
      case False
      let ?ps = "AList.update ''postinstall'' (JStr postinstall_script) ps"
      let ?kvs = "AList.update ''scripts'' (JObj ?ps) kvs"
      from False assms v sc JObj have v': "v' = JObj ?kvs"
        by (simp add: ensure_postinstall_eq[OF sc])
      have b: "get_prop (Some v') ''scripts'' = Inr (Some (JObj ?ps))"
        by (simp add: v' update_conv')
      have c: "\<forall>k. k \<noteq> ''postinstall'' \<longrightarrow> get_prop (Some (JObj ?ps)) k = get_prop (Some sc) k"
        by (simp add: JObj update_conv')
      have d: "\<forall>p. get_prop (Some sc) ''postinstall'' = Inr p \<and> truthy p \<longrightarrow> v' = v"
        using False by (auto simp: JObj)
      have e: "get_prop (Some (JObj ?ps)) ''postinstall'' = Inr (Some (JStr postinstall_script))"
        by (simp add: update_conv')
      have f: "\<forall>xs. sc = JArr xs \<longrightarrow> v' = v" by (simp add: JObj)
      have g: "(\<exists>ps. sc = JObj ps) \<or> (\<exists>xs. sc = JArr xs)" by (simp add: JObj)
      show ?thesis
        by (rule exI[of _ sc], rule exI[of _ "JObj ?ps"]) (use a b c d e f g in blast)
    qed
  next
    case (JArr xs)
    with assms v sc have "v' = v" by (simp add: ensure_postinstall_eq[OF sc])
    with a JArr show ?thesis by auto
  qed (use assms v sc in \<open>simp_all add: ensure_postinstall_eq[OF sc]\<close>)
qed


text \<open>
  C10, as the code has it. When \<open>package-render.json\<close> parses and \<open>optimizePackageJson\<close>
  completes, the file is rewritten with the serialisation of a value \<open>v'\<close> that agrees
  with the parsed value \<open>v\<close> on every top-level field other than \<open>scripts\<close> and on every
  field of \<open>scripts\<close> other than \<open>postinstall\<close>; \<open>v'\<close> is \<open>v\<close> itself when
  \<open>scripts.postinstall\<close> is truthy; and when \<open>scripts\<close> is an object whose \<open>postinstall\<close> is
  absent or falsy (empty string, null, false, 0), \<open>postinstall\<close> is set to
  \<open>echo "Production build ready"\<close>. \<open>scripts\<close> is an object or an array, and when it is
  an array \<open>v'\<close> is \<open>v\<close> itself: nothing is added. No other file changes. When \<open>JSON.parse\<close> reads the
  written text back as the written value, a second run completes and leaves the file
  content unchanged.
\<close>

theorem optimizePackageJson_frame:
  assumes isfile: "fs ''package-render.json'' = Some (File content)"
      and parsed: "parse content = Some v"
      and run: "optimizePackageJson parse stringify fs st = Inr (fs', st')"
  shows "\<exists>v' added sc sc'.
           ensure_postinstall v = Inr (v', added)
         \<and> fs' = fs(''package-render.json'' \<mapsto> File (stringify v'))
         \<and> (\<forall>k. k \<noteq> ''scripts'' \<longrightarrow> get_prop (Some v') k = get_prop (Some v) k)
         \<and> get_prop (Some v) ''scripts'' = Inr (Some sc)
         \<and> get_prop (Some v') ''scripts'' = Inr (Some sc')
         \<and> (\<forall>k. k \<noteq> ''postinstall'' \<longrightarrow> get_prop (Some sc') k = get_prop (Some sc) k)
         \<and> (\<forall>p. get_prop (Some sc) ''postinstall'' = Inr p \<and> truthy p \<longrightarrow> v' = v)
         \<and> (\<forall>ps. sc = JObj ps \<and> \<not> truthy (map_of ps ''postinstall'')
                \<longrightarrow> get_prop (Some sc') ''postinstall'' = Inr (Some (JStr postinstall_script)))
         \<and> (\<forall>xs. sc = JArr xs \<longrightarrow> v' = v)
         \<and> ((\<exists>ps. sc = JObj ps) \<or> (\<exists>xs. sc = JArr xs))
         \<and> (parse (stringify v') = Some v'
                \<longrightarrow> (\<forall>st2. \<exists>st3. optimizePackageJson parse stringify fs' st2 = Inr (fs', st3)))"
proof -
  from run isfile parsed obtain m where md: "missing_deps v = Inr m"
    by (cases "missing_deps v") (simp_all add: optimizePackageJson_def)
  from run isfile parsed md obtain v' added where ens: "ensure_postinstall v = Inr (v', added)"
    by (cases "ensure_postinstall v") (auto simp: optimizePackageJson_def)
  from run isfile parsed md ens obtain u where eu: "engines_unspecified v' = Inr u"
    by (cases "engines_unspecified v'") (simp_all add: optimizePackageJson_def)
  from run isfile parsed md ens eu
  have fs': "fs' = fs(''package-render.json'' \<mapsto> File (stringify v'))"
    by (simp add: optimizePackageJson_def)
  have other: "\<forall>k. k \<noteq> ''scripts'' \<longrightarrow> get_prop (Some v') k = get_prop (Some v) k"
    using ens by (simp add: ensure_postinstall_other_fields)
  from ensure_postinstall_scripts[OF ens] obtain sc sc' where
    sc: "get_prop (Some v) ''scripts'' = Inr (Some sc)
         \<and> get_prop (Some v') ''scripts'' = Inr (Some sc')
         \<and> (\<forall>k. k \<noteq> ''postinstall'' \<longrightarrow> get_prop (Some sc') k = get_prop (Some sc) k)
         \<and> (\<forall>p. get_prop (Some sc) ''postinstall'' = Inr p \<and> truthy p \<longrightarrow> v' = v)
         \<and> (\<forall>ps. sc = JObj ps \<and> \<not> truthy (map_of ps ''postinstall'')
                \<longrightarrow> get_prop (Some sc') ''postinstall'' = Inr (Some (JStr postinstall_script)))
         \<and> (\<forall>xs. sc = JArr xs \<longrightarrow> v' = v)
         \<and> ((\<exists>ps. sc = JObj ps) \<or> (\<exists>xs. sc = JArr xs))"
    by (elim exE)
  have again: "parse (stringify v') = Some v'
                \<longrightarrow> (\<forall>st2. \<exists>st3. optimizePackageJson parse stringify fs' st2 = Inr (fs', st3))"
  proof (intro impI allI)
    fix st2
    assume rt: "parse (stringify v') = Some v'"
    from ensure_postinstall_again[OF ens] obtain a' where
      e2: "ensure_postinstall v' = Inr (v', a')" ..
    have "missing_deps v' = missing_deps v"
      by (rule missing_deps_cong) (simp add: other)
    with md have m: "missing_deps v' = Inr m" by simp
    have same: "fs'(''package-render.json'' \<mapsto> File (stringify v')) = fs'"
      by (simp add: fs')
    have rd: "fs' ''package-render.json'' = Some (File (stringify v'))"
      by (simp add: fs')
    show "\<exists>st3. optimizePackageJson parse stringify fs' st2 = Inr (fs', st3)"
      by (simp add: optimizePackageJson_def rd rt e2 m eu same)
  qed
  show ?thesis
    by (rule exI[of _ v'], rule exI[of _ added], rule exI[of _ sc], rule exI[of _ sc'])
       (use ens fs' other sc again in simp)
qed

text \<open>
  C10 as stated fails: a \<open>scripts.postinstall\<close> that exists with the empty string as its
  value is not left unchanged, it is overwritten with \<open>echo "Production build ready"\<close>.
\<close>

theorem optimizePackageJson_overwrites_empty_postinstall:
  "excerpt_parse text_empty = Some value_empty
   \<and> get_prop (Some value_empty) ''scripts''
       = Inr (Some (JObj [(''postinstall'', JStr [])]))
   \<and> map_sum id fst
         (optimizePackageJson excerpt_parse excerpt_stringify
            [''package-render.json'' \<mapsto> File text_empty] fresh)
       = Inr [''package-render.json'' \<mapsto> File text_after]
   \<and> excerpt_parse text_after = Some value_after
   \<and> get_prop (Some value_after) ''scripts''
       = Inr (Some (JObj [(''postinstall'', JStr postinstall_script)]))
   \<and> postinstall_script \<noteq> []"
  by (simp add: excerpt_defs optimizer_defs postinstall_script_def)

text \<open>
  C10, a concrete run: a file with no \<open>postinstall\<close> gets one, and the second run on
  the output leaves the text as it is.
\<close>

theorem optimizePackageJson_frame_witness:
  "excerpt_parse text_before = Some value_before
   \<and> map_sum id fst
         (optimizePackageJson excerpt_parse excerpt_stringify
            [''package-render.json'' \<mapsto> File text_before] fresh)
       = Inr [''package-render.json'' \<mapsto> File text_after]
   \<and> excerpt_parse (excerpt_stringify value_after) = Some value_after
   \<and> map_sum id fst
         (optimizePackageJson excerpt_parse excerpt_stringify
            [''package-render.json'' \<mapsto> File text_after] fresh)
       = Inr [''package-render.json'' \<mapsto> File text_after]"
proof -
  let ?fs = "[''package-render.json'' \<mapsto> File text_before]"
  let ?fs' = "[''package-render.json'' \<mapsto> File text_after]"
  have isfile: "?fs ''package-render.json'' = Some (File text_before)" by simp
  have parsed: "excerpt_parse text_before = Some value_before"
    by (simp add: excerpt_defs)
  obtain st' where run:
    "optimizePackageJson excerpt_parse excerpt_stringify ?fs fresh = Inr (?fs', st')"
    by (simp add: excerpt_defs optimizer_defs postinstall_script_def)
  have ens: "ensure_postinstall value_before = Inr (value_after, True)"
    by (simp add: ensure_postinstall_def value_before_def value_after_def)
  have rt: "excerpt_parse (excerpt_stringify value_after) = Some value_after"
    by (simp add: excerpt_defs)
  from optimizePackageJson_frame[OF isfile parsed run] ens rt
  have "\<forall>st2. \<exists>st3.
          optimizePackageJson excerpt_parse excerpt_stringify ?fs' st2 = Inr (?fs', st3)"
    by auto
  then obtain st3 where
    "optimizePackageJson excerpt_parse excerpt_stringify ?fs' fresh = Inr (?fs', st3)"
    by blast
  with parsed run rt show ?thesis by simp
qed


section \<open>deployment-verification.js\<close>

text \<open>
  \<open>DeploymentVerifier\<close> keeps three lists. \<open>log\<close> only prints (a timestamped line on the
  console), so \<open>error\<close>, \<open>warning\<close> and \<open>pass\<close> are the pushes.
\<close>

record verifier = report +
  passed :: "string list"

definition error :: "string \<Rightarrow> verifier \<Rightarrow> verifier" where
  "error message st = st\<lparr>errors := errors st @ [message]\<rparr>"

definition warning :: "string \<Rightarrow> verifier \<Rightarrow> verifier" where
  "warning message st = st\<lparr>warnings := warnings st @ [message]\<rparr>"

definition pass :: "string \<Rightarrow> verifier \<Rightarrow> verifier" where
  "pass message st = st\<lparr>passed := passed st @ [message]\<rparr>"

definition fileExists :: "files \<Rightarrow> string \<Rightarrow> bool" where
  "fileExists fs filePath = existsSync fs filePath"

text \<open>\<open>readFile\<close> catches every failure and returns null: \<open>None\<close> here.\<close>

definition readFile :: "files \<Rightarrow> string \<Rightarrow> string option" where
  "readFile fs filePath = (case fs filePath of Some (File content) \<Rightarrow> Some content | _ \<Rightarrow> None)"

text \<open>
  \<open>readJSON\<close> returns null when the file cannot be read, is empty or does not parse; a
  file holding the JSON text \<open>null\<close> gives null as well.
\<close>

definition readJSON :: "(string \<Rightarrow> json option) \<Rightarrow> files \<Rightarrow> string \<Rightarrow> json" where
  "readJSON parse fs filePath =
     (case readFile fs filePath of
        None \<Rightarrow> JNull
      | Some content \<Rightarrow>
          if content \<noteq> [] then (case parse content of None \<Rightarrow> JNull | Some v \<Rightarrow> v)
          else JNull)"

text \<open>
  A check returns the verifier it leaves, or \<open>Inl\<close> with the error it throws and the
  verifier as it was at the throw.
\<close>

type_synonym check_result = "js_error \<times> verifier + verifier"

definition buildTools :: "string list" where
  "buildTools = [''vite'', ''esbuild'', ''tailwindcss'', ''autoprefixer'',
                 ''postcss'', ''typescript'', ''@vitejs/plugin-react'', ''tsx'']"

definition requiredScripts :: "string list" where
  "requiredScripts = [''build'', ''build:frontend'', ''build:backend'', ''start'']"

text \<open>\<open>names.filter(name => !obj[field][name])\<close>, lines 79 and 101.\<close>

definition missing_from :: "json \<Rightarrow> string \<Rightarrow> string list \<Rightarrow> js_error + string list" where
  "missing_from obj field names =
     filter_throwing
       (\<lambda>name. case get_prop (Some obj) field of
                  Inl e \<Rightarrow> Inl e
                | Inr tbl \<Rightarrow>
                    (case get_prop tbl name of
                       Inl e \<Rightarrow> Inl e
                     | Inr v \<Rightarrow> Inr (\<not> truthy v)))
       names"

text \<open>\<open>obj.field !== 's'\<close> for an \<open>obj\<close> that is not null.\<close>

definition field_is_not :: "json \<Rightarrow> string \<Rightarrow> string \<Rightarrow> bool" where
  "field_is_not obj field s =
     (case get_prop (Some obj) field of Inr (Some (JStr t)) \<Rightarrow> t \<noteq> s | _ \<Rightarrow> True)"

definition verifyPackageDependencies ::
  "(string \<Rightarrow> json option) \<Rightarrow> files \<Rightarrow> verifier \<Rightarrow> check_result" where
  \<open>verifyPackageDependencies parse fs st =
     (let packageRender = readJSON parse fs ''package-render.json'' in
      if \<not> truthy (Some packageRender)
      then Inr (error ''package-render.json not found'' st)
      else
        (case missing_from packageRender ''dependencies'' buildTools of
           Inl e \<Rightarrow> Inl (e, st)
         | Inr missing \<Rightarrow>
        (let st1 = (if length missing > 0
                    then error (''Build tools missing from dependencies: ''
                                @ join '', '' missing) st
                    else pass ''All build tools in dependencies'' st);
             st2 = (if field_is_not packageRender ''type'' ''module''
                    then error ''package.json type should be "module"'' st1
                    else pass ''Package type set to "module"'' st1);
             st3 = (if field_is_not packageRender ''main'' ''dist/index.prod.js''
                    then error ''Main entry point should be "dist/index.prod.js"'' st2
                    else pass ''Main entry point correctly set'' st2)
         in
        (case missing_from packageRender ''scripts'' requiredScripts of
           Inl e \<Rightarrow> Inl (e, st3)
         | Inr missingScripts \<Rightarrow>
             Inr (if length missingScripts > 0
                  then error (''Missing scripts: '' @ join '', '' missingScripts) st3
                  else pass ''All required scripts present'' st3)))))\<close>

text \<open>
  The pattern of most checks: \<open>if (!text.includes(p)) this.error(e) else this.pass(m)\<close>,
  and its mirror image with a warning.
\<close>

definition must_include :: "string \<Rightarrow> string \<Rightarrow> string \<Rightarrow> string \<Rightarrow> verifier \<Rightarrow> verifier" where
  "must_include text p e m st = (if \<not> str_includes text p then error e st else pass m st)"

definition should_include :: "string \<Rightarrow> string \<Rightarrow> string \<Rightarrow> string \<Rightarrow> verifier \<Rightarrow> verifier" where
  "should_include text p m w st = (if str_includes text p then pass m st else warning w st)"

definition verifyViteConfig :: "files \<Rightarrow> verifier \<Rightarrow> check_result" where
  \<open>verifyViteConfig fs st =
     (if \<not> fileExists fs ''vite.config.render.js''
      then Inr (error ''vite.config.render.js not found'' st)
      else
        (case readFile fs ''vite.config.render.js'' of
           None \<Rightarrow> Inl (TypeError, st)
         | Some viteConfig \<Rightarrow>
             Inr (must_include viteConfig
                    ''outDir: path.resolve(__dirname, "dist", "public")''
                    ''Vite output directory not properly configured''
                    ''Vite output directory correctly set''
                 (must_include viteConfig ''@": path.resolve''
                    ''Vite aliases not properly configured''
                    ''Vite aliases configured''
                 (must_include viteConfig ''base: "./"''
                    ''Vite base path not set to "./"''
                    ''Vite base path correctly configured'' st)))))\<close>

definition verifyBackendConfig :: "files \<Rightarrow> verifier \<Rightarrow> check_result" where
  "verifyBackendConfig fs st =
     (if \<not> fileExists fs ''server/index.prod.ts''
      then Inr (error ''server/index.prod.ts not found'' st)
      else
        (case readFile fs ''server/index.prod.ts'' of
           None \<Rightarrow> Inl (TypeError, st)
         | Some backend \<Rightarrow>
             Inr (must_include backend ''SIGTERM''
                    ''Graceful shutdown handling missing''
                    ''Graceful shutdown handling configured''
                 (must_include backend ''uncaughtException''
                    ''Global error handling missing''
                    ''Global error handling configured''
                 (must_include backend ''requiredEnvVars''
                    ''Environment variables validation missing''
                    ''Environment variables validation present''
                 (must_include backend ([CHR 0x27] @ ''0.0.0.0'' @ [CHR 0x27])
                    ''Server not binding to 0.0.0.0''
                    ''Server properly binding to 0.0.0.0'' st))))))"

text \<open>
  The environment: \<open>process.env[name]\<close> is a string or undefined, and \<open>!process.env[name]\<close>
  holds when it is undefined or empty.
\<close>

type_synonym env = "string \<rightharpoonup> string"

definition requiredVars :: "string list" where
  "requiredVars = [''DPS_USERNAME'', ''DPS_PASSWORD'', ''GMAIL_EMAIL'', ''GMAIL_APP_PASSWORD'']"

definition unset :: "env \<Rightarrow> string \<Rightarrow> bool" where
  "unset env varName = (case env varName of None \<Rightarrow> True | Some v \<Rightarrow> v = [])"

definition verifyEnvironmentConfig :: "env \<Rightarrow> verifier \<Rightarrow> check_result" where
  "verifyEnvironmentConfig env st =
     (let missingVars = filter (unset env) requiredVars;
          st1 = (if length missingVars > 0
                 then warning ''These must be set in Render dashboard''
                        (warning (''Environment variables not set locally: ''
                                  @ join '', '' missingVars) st)
                 else pass ''All required environment variables available'' st)
      in Inr (if env ''NODE_ENV'' \<noteq> Some ''production''
              then warning ''NODE_ENV not set to production (OK for local testing)'' st1
              else pass ''NODE_ENV set to production'' st1))"

definition requiredIgnores :: "string list" where
  "requiredIgnores = [''node_modules/'', ''dist/'', ''.env'', ''*.log'']"

definition exists_or_warn :: "files \<Rightarrow> string \<Rightarrow> string \<Rightarrow> string \<Rightarrow> verifier \<Rightarrow> verifier" where
  "exists_or_warn fs filePath m w st = (if fileExists fs filePath then pass m st else warning w st)"

definition verifyGitConfig :: "files \<Rightarrow> verifier \<Rightarrow> check_result" where
  "verifyGitConfig fs st =
     (case (if \<not> fileExists fs ''.gitignore''
            then Inr (error ''.gitignore not found'' st)
            else
              (case readFile fs ''.gitignore'' of
                 None \<Rightarrow> Inl (TypeError, st)
               | Some gitignore \<Rightarrow>
                   (let missing = filter (\<lambda>pattern. \<not> str_includes gitignore pattern)
                                    requiredIgnores
                    in Inr (if length missing > 0
                            then error (''Missing .gitignore patterns: ''
                                        @ join '', '' missing) st
                            else pass ''.gitignore properly configured'' st)))) of
        Inl e \<Rightarrow> Inl e
      | Inr st1 \<Rightarrow>
          Inr (if \<not> fileExists fs ''.editorconfig''
               then warning ''.editorconfig not found (recommended for cross-platform consistency)'' st1
               else pass ''.editorconfig present'' st1))"

definition verifyRenderConfig :: "files \<Rightarrow> verifier \<Rightarrow> check_result" where
  "verifyRenderConfig fs st =
     (if \<not> fileExists fs ''render.yaml''
      then Inr (error ''render.yaml not found'' st)
      else
        (case readFile fs ''render.yaml'' of
           None \<Rightarrow> Inl (TypeError, st)
         | Some renderConfig \<Rightarrow>
             Inr (must_include renderConfig ''startCommand: npm start''
                    ''Start command not properly set''
                    ''Start command properly configured''
                 (must_include renderConfig ''cp package-render.json package.json''
                    ''Build command not copying package-render.json''
                    ''Build command properly configured''
                 (must_include renderConfig ''healthCheckPath: /health''
                    ''Health check path not configured''
                    ''Health check path configured'' st)))))"

text \<open>Optional chaining \<open>x?.k\<close>: undefined when \<open>x\<close> is null or undefined.\<close>

definition opt_chain :: "json option \<Rightarrow> string \<Rightarrow> json option" where
  "opt_chain x k = (case get_prop x k of Inl e \<Rightarrow> None | Inr v \<Rightarrow> v)"

definition verifyMiscellaneous ::
  "(string \<Rightarrow> json option) \<Rightarrow> files \<Rightarrow> verifier \<Rightarrow> check_result" where
  "verifyMiscellaneous parse fs st =
     (let st1 = (if fileExists fs ''render-deploy.sh''
                 then pass ''Deployment script present'' st
                 else warning ''Deployment script not found'' st);
          st2 = (if \<not> fileExists fs ''tsconfig.json''
                 then error ''tsconfig.json not found'' st1
                 else
                   (let tsConfig = readJSON parse fs ''tsconfig.json'' in
                    if opt_chain (opt_chain (Some tsConfig) ''compilerOptions'') ''target''
                         = Some (JStr ''ES2022'')
                    then pass ''TypeScript target optimized for modern browsers'' st1
                    else warning ''TypeScript target not optimized'' st1));
          st3 = (if \<not> fileExists fs ''postcss.config.js''
                 then error ''postcss.config.js not found'' st2
                 else pass ''PostCSS configuration present'' st2);
          st4 = (if \<not> fileExists fs ''tailwind.config.ts''
                 then error ''tailwind.config.ts not found'' st3
                 else
                   (case readFile fs ''tailwind.config.ts'' of
                      None \<Rightarrow> warning ''Tailwind CSS may produce large bundles'' st3
                    | Some tailwindConfig \<Rightarrow>
                        should_include tailwindConfig ''safelist''
                          ''Tailwind CSS purging optimized''
                          ''Tailwind CSS may produce large bundles'' st3));
          st5 = exists_or_warn fs ''build-optimizer.js''
                  ''Build optimization tools available''
                  ''Build optimization tools not found'' st4;
          st6 = exists_or_warn fs ''server/utils/apiLimiter.ts''
                  ''API rate limiting configured''
                  ''API rate limiting not configured'' st5;
          st7 = exists_or_warn fs ''server/utils/timezone.ts''
                  ''Timezone handling configured''
                  ''Timezone handling not configured'' st6
      in Inr st7)"

text \<open>
  In the last two checks \<open>if (!text)\<close> guards the reads: the text is null (\<open>None\<close>) or
  empty.
\<close>

definition verifyRuntimeSecurity :: "files \<Rightarrow> verifier \<Rightarrow> check_result" where
  "verifyRuntimeSecurity fs st =
     (case readFile fs ''server/index.prod.ts'' of
        None \<Rightarrow> Inr (error ''Production server code not found'' st)
      | Some backendCode \<Rightarrow>
          if backendCode = []
          then Inr (error ''Production server code not found'' st)
          else
            (let st1 = (if str_includes backendCode ''setTimeout''
                           \<and> str_includes backendCode ''408''
                        then pass ''Request timeout handling configured'' st
                        else error ''Request timeout handling missing'' st);
                 st2 = should_include backendCode ''LOG_THROTTLE_MS''
                         ''Log rate limiting configured''
                         ''Log rate limiting not configured'' st1;
                 st3 = should_include backendCode
                         (''limit: '' @ [CHR 0x27] @ ''50mb'' @ [CHR 0x27])
                         ''Request size limits configured''
                         ''Request size limits not configured'' st2
             in Inr (if str_includes backendCode ''X-Content-Type-Options''
                     then pass ''Security headers configured'' st3
                     else error ''Security headers missing'' st3)))"

definition verifyBuildOptimization :: "files \<Rightarrow> verifier \<Rightarrow> check_result" where
  \<open>verifyBuildOptimization fs st =
     (case readFile fs ''vite.config.render.js'' of
        None \<Rightarrow> Inr (error ''Vite render config not found'' st)
      | Some viteConfig \<Rightarrow>
          if viteConfig = []
          then Inr (error ''Vite render config not found'' st)
          else
             Inr (should_include viteConfig ''cssMinify: true''
                    ''CSS minification enabled''
                    ''CSS minification not enabled''
                 (should_include viteConfig ''external: (id)''
                    ''Node.js built-ins excluded from bundle''
                    ''Node.js built-ins may be bundled incorrectly''
                 (should_include viteConfig ''manualChunks: undefined''
                    ''Chunk splitting disabled for smaller bundles''
                    ''Chunk splitting may cause issues''
                 (should_include viteConfig ''target: "ES2022"''
                    ''Build target optimized for modern browsers''
                    ''Build target not optimized'' st)))))\<close>

text \<open>The checks of \<open>verify\<close> run in order; a throw ends the run.\<close>

fun run_checks :: "(verifier \<Rightarrow> check_result) list \<Rightarrow> verifier \<Rightarrow> check_result" where
  "run_checks [] st = Inr st"
| "run_checks (c # cs) st =
     (case c st of Inl e \<Rightarrow> Inl e | Inr st' \<Rightarrow> run_checks cs st')"

definition all_checks ::
  "(string \<Rightarrow> json option) \<Rightarrow> files \<Rightarrow> env \<Rightarrow> (verifier \<Rightarrow> check_result) list" where
  "all_checks parse fs env =
     [verifyPackageDependencies parse fs,
      verifyViteConfig fs,
      verifyBackendConfig fs,
      verifyEnvironmentConfig env,
      verifyGitConfig fs,
      verifyRenderConfig fs,
      verifyMiscellaneous parse fs,
      verifyRuntimeSecurity fs,
      verifyBuildOptimization fs]"

definition new_verifier :: verifier where
  "new_verifier = \<lparr>errors = [], warnings = [], passed = []\<rparr>"

text \<open>
  The whole script, \<open>new DeploymentVerifier().verify().catch(console.error)\<close>: the exit
  status of the process and the verifier at the end. When a check throws, the promise
  of \<open>verify\<close> rejects, \<open>console.error\<close> prints the error and the process ends with status
  0. Otherwise \<open>process.exit(1)\<close> runs when \<open>this.errors.length > 0\<close>, and the process ends
  with status 0 when it does not.
\<close>

definition verify :: "(string \<Rightarrow> json option) \<Rightarrow> files \<Rightarrow> env \<Rightarrow> nat \<times> verifier" where
  "verify parse fs env =
     (case run_checks (all_checks parse fs env) new_verifier of
        Inl (e, st) \<Rightarrow> (0, st)
      | Inr st \<Rightarrow> if length (errors st) > 0 then (1, st) else (0, st))"

subsection \<open>The exit status of the verification script\<close>

lemmas verifier_defs =
  verify_def all_checks_def new_verifier_def verifyPackageDependencies_def readJSON_def
  readFile_def missing_from_def buildTools_def requiredScripts_def field_is_not_def
  error_def pass_def warning_def

text \<open>
  The status is 0 or 1, and status 1 is only ever reached through the test
  \<open>this.errors.length > 0\<close>: warnings alone never give a non-zero status.
\<close>

lemma verify_status_le_1: "fst (verify parse fs env) \<le> 1"
  by (auto simp: verify_def split: sum.splits prod.splits if_splits)

lemma verify_status_1_has_error:
  "fst (verify parse fs env) = 1 \<Longrightarrow> errors (snd (verify parse fs env)) \<noteq> []"
  by (auto simp: verify_def split: sum.splits prod.splits if_splits)

lemma verify_completed_status:
  "run_checks (all_checks parse fs env) new_verifier = Inr st \<Longrightarrow>
   (fst (verify parse fs env) = 1) = (errors st \<noteq> [])"
  by (auto simp: verify_def)

lemma verifyEnvironmentConfig_errors:
  "\<exists>st'. verifyEnvironmentConfig env st = Inr st' \<and> errors st' = errors st"
  by (simp add: verifyEnvironmentConfig_def Let_def warning_def pass_def)

text \<open>
  C8, at the input where the code departs from it: \<open>package-render.json\<close> holds
  \<open>{"dependencies":{}}\<close>. \<open>verifyPackageDependencies\<close> records three errors, then
  \<open>packageRender.scripts[script]\<close> throws because \<open>scripts\<close> is undefined; the rejection is
  only printed, and the process ends with status 0 although errors were recorded.
\<close>

theorem verify_swallows_errors:
  \<open>fst (verify excerpt_parse [''package-render.json'' \<mapsto> File text_no_scripts] Map.empty) = 0
   \<and> errors (snd (verify excerpt_parse
                     [''package-render.json'' \<mapsto> File text_no_scripts] Map.empty))
       = [''Build tools missing from dependencies: vite, esbuild, tailwindcss, autoprefixer, postcss, typescript, @vitejs/plugin-react, tsx'',
          ''package.json type should be "module"'',
          ''Main entry point should be "dist/index.prod.js"'']\<close>
  by (simp add: verifier_defs excerpt_defs)

section \<open>The Render deployment script (render-deploy.sh)\<close>

text \<open>
  The bash script runs under \<open>set -e\<close>: a command that fails ends the script with that
  command's status. What the script does is the list of its commands in order; the
  exit status of each external command (\<open>rm\<close>, \<open>npm\<close>) and which build outputs exist
  afterwards belong to the machine and are parameters. \<open>[ -z "$X" ]\<close> holds when \<open>X\<close> is
  unset or empty, which is \<open>unset\<close> above.
\<close>

datatype action =
    Echo string
  | Export string string
  | RmRf string
  | NpmCi
  | NpmRun string

fun external :: "action \<Rightarrow> bool" where
  "external (Echo s) = False"
| "external (Export k v) = False"
| "external (RmRf p) = True"
| "external NpmCi = True"
| "external (NpmRun s) = True"

text \<open>Commands in sequence under \<open>set -e\<close>: \<open>echo\<close> and \<open>export\<close> succeed.\<close>

fun run_all :: "(action \<Rightarrow> nat) \<Rightarrow> action list \<Rightarrow> action list \<Rightarrow> nat \<times> action list" where
  "run_all status [] acc = (0, acc)"
| "run_all status (c # cs) acc =
     (if external c \<and> status c \<noteq> 0 then (status c, acc @ [c])
      else run_all status cs (acc @ [c]))"

definition REQUIRED_VARS :: "string list" where
  "REQUIRED_VARS = [''DPS_USERNAME'', ''DPS_PASSWORD'', ''GMAIL_EMAIL'', ''GMAIL_APP_PASSWORD'']"

definition build_steps :: "action list" where
  "build_steps =
     [Echo ''All required environment variables are set'',
      Echo ''Cleaning previous build artifacts...'',
      RmRf ''dist/'',
      RmRf ''node_modules/.cache/'',
      RmRf ''client/node_modules/'',
      Echo ''Installing dependencies...'',
      NpmCi,
      Echo ''Building frontend...'',
      NpmRun ''build:frontend'',
      Echo ''Building backend...'',
      NpmRun ''build:backend'']"

text \<open>
  The script: its exit status, the commands it ran, and the environment at its end.
\<close>

definition render_deploy ::
  "(action \<Rightarrow> nat) \<Rightarrow> (string \<Rightarrow> bool) \<Rightarrow> env \<Rightarrow> nat \<times> action list \<times> env" where
  "render_deploy status is_file env0 =
     (let t0 = [Echo ''Starting Render deployment preparation...'',
                Echo ''Validating environment variables...''];
          t1 = (if unset env0 ''NODE_ENV''
                then t0 @ [Echo ''Warning: NODE_ENV not set, defaulting to production'',
                           Export ''NODE_ENV'' ''production'']
                else t0);
          env1 = (if unset env0 ''NODE_ENV''
                  then env0(''NODE_ENV'' \<mapsto> ''production'')
                  else env0);
          MISSING_VARS = filter (unset env1) REQUIRED_VARS
      in
      if length MISSING_VARS \<noteq> 0
      then (1, t1 @ [Echo (''Error: Missing required environment variables: ''
                           @ join '' '' MISSING_VARS),
                     Echo ''Set these in Render dashboard before deployment''], env1)
      else
        (case run_all status build_steps t1 of (st, t2) \<Rightarrow>
           if st \<noteq> 0 then (st, t2, env1)
           else if \<not> is_file ''dist/index.prod.js''
           then (1, t2 @ [Echo ''Error: Backend build failed - dist/index.prod.js not found''],
                 env1)
           else if \<not> is_file ''dist/public/index.html''
           then (1, t2 @ [Echo ''Error: Frontend build failed - dist/public/index.html not found''],
                 env1)
           else (0, t2 @ [Echo ''Build completed successfully!'',
                          Echo ''Backend: dist/index.prod.js'',
                          Echo ''Frontend: dist/public/'',
                          Echo ''Ready for Render deployment''], env1)))"

subsection \<open>Validation comes first\<close>

lemma unset_after_export:
  "v \<in> set REQUIRED_VARS \<Longrightarrow> unset (env0(''NODE_ENV'' \<mapsto> x)) v = unset env0 v"
  by (auto simp: REQUIRED_VARS_def unset_def)

lemma run_all_extends:
  "run_all status cs acc = (st, t) \<Longrightarrow> \<exists>rest. t = acc @ rest"
proof (induction cs arbitrary: acc)
  case Nil
  then show ?case by simp
next
  case (Cons c cs)
  show ?case
  proof (cases "external c \<and> status c \<noteq> 0")
    case True
    with Cons.prems show ?thesis by auto
  next
    case False
    with Cons.prems have "run_all status cs (acc @ [c]) = (st, t)" by auto
    from Cons.IH[OF this] show ?thesis by auto
  qed
qed

lemma render_deploy_trace:
  assumes "render_deploy status is_file env0 = (st, trace, env1)"
  shows "\<exists>rest. trace =
      [Echo ''Starting Render deployment preparation...'',
       Echo ''Validating environment variables...'']
      @ (if unset env0 ''NODE_ENV''
         then [Echo ''Warning: NODE_ENV not set, defaulting to production'',
               Export ''NODE_ENV'' ''production'']
         else []) @ rest"
proof -
  let ?t1 = "[Echo ''Starting Render deployment preparation...'',
       Echo ''Validating environment variables...'']
      @ (if unset env0 ''NODE_ENV''
         then [Echo ''Warning: NODE_ENV not set, defaulting to production'',
               Export ''NODE_ENV'' ''production'']
         else [])"
  obtain s2 t2 where r: "run_all status build_steps ?t1 = (s2, t2)"
    by (cases "run_all status build_steps ?t1")
  from run_all_extends[OF r] obtain rest where t2: "t2 = ?t1 @ rest" by blast
  from assms r have "trace = t2 \<or> (\<exists>x. trace = t2 @ x) \<or> (\<exists>x. trace = ?t1 @ x)"
    by (auto simp: render_deploy_def Let_def split: if_splits)
  with t2 show ?thesis by auto
qed

lemma render_deploy_env:
  assumes "render_deploy status is_file env0 = (st, trace, env1)"
  shows "env1 = (if unset env0 ''NODE_ENV'' then env0(''NODE_ENV'' \<mapsto> ''production'') else env0)"
  using assms
  by (auto simp: render_deploy_def Let_def split: if_splits prod.splits)

text \<open>
  C9. In every environment where one of \<open>DPS_USERNAME\<close>, \<open>DPS_PASSWORD\<close>, \<open>GMAIL_EMAIL\<close>,
  \<open>GMAIL_APP_PASSWORD\<close> is unset or empty, the script exits with status 1 and none of the
  commands it ran cleans, installs or builds (no \<open>rm\<close>, no \<open>npm\<close>). And whenever
  \<open>NODE_ENV\<close> is unset, the script exports \<open>NODE_ENV=production\<close> as its first command
  after three \<open>echo\<close>s, and \<open>NODE_ENV\<close> is \<open>production\<close> in the environment from then on.
\<close>

theorem render_deploy_validation:
  assumes run: "render_deploy status is_file env0 = (st, trace, env1)"
  shows "((\<exists>v\<in>set REQUIRED_VARS. unset env0 v)
            \<longrightarrow> st = 1 \<and> (\<forall>a\<in>set trace. \<not> external a))
       \<and> (env0 ''NODE_ENV'' = None
            \<longrightarrow> env1 ''NODE_ENV'' = Some ''production''
              \<and> take 4 trace =
                  [Echo ''Starting Render deployment preparation...'',
                   Echo ''Validating environment variables...'',
                   Echo ''Warning: NODE_ENV not set, defaulting to production'',
                   Export ''NODE_ENV'' ''production''])"
proof (intro conjI impI)
  let ?env1 = "if unset env0 ''NODE_ENV'' then env0(''NODE_ENV'' \<mapsto> ''production'') else env0"
  assume "\<exists>v\<in>set REQUIRED_VARS. unset env0 v"
  then obtain v where v: "v \<in> set REQUIRED_VARS" "unset env0 v" by blast
  then have "unset ?env1 v" by (simp add: unset_after_export)
  with v(1) have "v \<in> set (filter (unset ?env1) REQUIRED_VARS)" by simp
  then have ne: "length (filter (unset ?env1) REQUIRED_VARS) \<noteq> 0" by fastforce
  from run ne show "st = 1"
    by (simp add: render_deploy_def Let_def)
  from run ne show "\<forall>a\<in>set trace. \<not> external a"
    by (auto simp: render_deploy_def Let_def split: if_splits)
next
  assume n: "env0 ''NODE_ENV'' = None"
  then have u: "unset env0 ''NODE_ENV''" by (simp add: unset_def)
  from render_deploy_env[OF run] u show "env1 ''NODE_ENV'' = Some ''production''" by simp
  show "take 4 trace =
                  [Echo ''Starting Render deployment preparation...'',
                   Echo ''Validating environment variables...'',
                   Echo ''Warning: NODE_ENV not set, defaulting to production'',
                   Export ''NODE_ENV'' ''production'']"
    using render_deploy_trace[OF run] u by auto
qed

text \<open>
  C9, a concrete run: in the empty environment the script exports \<open>NODE_ENV\<close>, names
  the four missing variables and exits with status 1.
\<close>

theorem render_deploy_validation_witness:
  "unset Map.empty ''DPS_PASSWORD''
   \<and> render_deploy (\<lambda>a. 0) (\<lambda>p. True) Map.empty
       = (1,
          [Echo ''Starting Render deployment preparation...'',
           Echo ''Validating environment variables...'',
           Echo ''Warning: NODE_ENV not set, defaulting to production'',
           Export ''NODE_ENV'' ''production'',
           Echo ''Error: Missing required environment variables: DPS_USERNAME DPS_PASSWORD GMAIL_EMAIL GMAIL_APP_PASSWORD'',
           Echo ''Set these in Render dashboard before deployment''],
          [''NODE_ENV'' \<mapsto> ''production''])"
proof -
  have run: "render_deploy (\<lambda>a. 0) (\<lambda>p. True) Map.empty
       = (1,
          [Echo ''Starting Render deployment preparation...'',
           Echo ''Validating environment variables...'',
           Echo ''Warning: NODE_ENV not set, defaulting to production'',
           Export ''NODE_ENV'' ''production'',
           Echo ''Error: Missing required environment variables: DPS_USERNAME DPS_PASSWORD GMAIL_EMAIL GMAIL_APP_PASSWORD'',
           Echo ''Set these in Render dashboard before deployment''],
          [''NODE_ENV'' \<mapsto> ''production''])"
    by (simp add: render_deploy_def REQUIRED_VARS_def unset_def Let_def)
  have u: "unset Map.empty ''DPS_PASSWORD''" by (simp add: unset_def)
  then have m: "\<exists>v\<in>set REQUIRED_VARS. unset Map.empty v"
    by (auto simp: REQUIRED_VARS_def)
  from render_deploy_validation[OF run] m u run show ?thesis by simp
qed


section \<open>The event store of the monitoring core\<close>

text \<open>
  The sources hold the deployment tooling only; the store and the scheduler are
  described by the specification (sections 3, 4.1 and 4.5) and are modelled here from
  its words.
\<close>

text \<open>
  Modelled from the spec: the notification channels of section 2 (email, generated
  document export, messaging webhook); their adapters are not in the sources.
\<close>

datatype channel = Email | Pdf | Messaging

text \<open>
  Modelled from the spec: \<open>deliveryStatus\<close> per channel is \<open>pending | delivered | failed\<close>
  (section 3, SeenEntry).
\<close>

datatype delivery_status = pending | delivered | failed

text \<open>
  Modelled from the spec: the canonical \<open>Event\<close> record of section 3. The field \<open>id\<close> is
  \<open>event_id\<close> here. Timestamps are numbers.
\<close>

record event =
  event_id :: string
  title :: string
  category :: string
  scheduledAt :: nat
  sourceUrl :: string
  rawHash :: string

text \<open>
  Modelled from the spec: the persisted \<open>SeenEntry\<close> of section 3, with \<open>entry_id\<close> and
  \<open>entry_rawHash\<close> for its \<open>id\<close> and \<open>rawHash\<close>; \<open>lastNotifiedAt\<close> is null (\<open>None\<close>) until a
  channel delivers. The store supports point lookup by id (section 6), so it is a map.
\<close>

record seen_entry =
  entry_id :: string
  firstSeenAt :: nat
  entry_rawHash :: string
  lastNotifiedAt :: "nat option"
  deliveryStatus :: "channel \<Rightarrow> delivery_status"

type_synonym store = "string \<rightharpoonup> seen_entry"

text \<open>
  Modelled from the spec: the \<open>Cycle Result\<close> of section 3, the fetched events
  partitioned into \<open>new\<close>, \<open>updated\<close> and \<open>unchanged\<close>.
\<close>

record cycle_result =
  new :: "event list"
  updated :: "event list"
  unchanged :: "event list"

text \<open>
  Modelled from the spec: the lookup of section 4.5, one event after the other against
  the store as it is when \<open>diff\<close> is called: id absent gives \<open>new\<close>, present with a
  differing \<open>rawHash\<close> gives \<open>updated\<close>, present with the same \<open>rawHash\<close> gives \<open>unchanged\<close>.
\<close>

fun partition_events :: "store \<Rightarrow> event list \<Rightarrow> cycle_result" where
  "partition_events st [] = \<lparr>new = [], updated = [], unchanged = []\<rparr>"
| "partition_events st (e # es) =
     (let r = partition_events st es in
      case st (event_id e) of
        None \<Rightarrow> r\<lparr>new := e # new r\<rparr>
      | Some entry \<Rightarrow>
          if entry_rawHash entry \<noteq> rawHash e then r\<lparr>updated := e # updated r\<rparr>
          else r\<lparr>unchanged := e # unchanged r\<rparr>)"

text \<open>
  Modelled from the spec: a SeenEntry is created on the first sighting of an id
  (nothing notified yet, every channel pending) and updated when the \<open>rawHash\<close> changes
  (section 3, lifecycle). \<open>now\<close> is the clock reading that becomes \<open>firstSeenAt\<close>.
\<close>

definition persist_event :: "nat \<Rightarrow> store \<Rightarrow> event \<Rightarrow> store" where
  "persist_event now st e =
     (case st (event_id e) of
        None \<Rightarrow>
          st(event_id e \<mapsto>
               \<lparr>entry_id = event_id e, firstSeenAt = now, entry_rawHash = rawHash e,
                lastNotifiedAt = None, deliveryStatus = (\<lambda>c. pending)\<rparr>)
      | Some entry \<Rightarrow> st(event_id e \<mapsto> entry\<lparr>entry_rawHash := rawHash e\<rparr>))"

text \<open>
  Modelled from the spec: \<open>diff(events) -> CycleResult\<close> of section 4.5. The new and
  updated rows are committed in the store that \<open>diff\<close> returns together with the result,
  so no result is returned that is not committed.
\<close>

definition diff :: "nat \<Rightarrow> event list \<Rightarrow> store \<Rightarrow> cycle_result \<times> store" where
  "diff now events st =
     (let r = partition_events st events
      in (r, foldl (persist_event now) st (new r @ updated r)))"

text \<open>Events and a store for concrete runs: the scenario of section 8.\<close>

definition hearing :: "string \<Rightarrow> string \<Rightarrow> event" where
  "hearing i h = \<lparr>event_id = i, title = ''Hearing X'', category = ''hearing'',
                  scheduledAt = 0, sourceUrl = ''https://portal/'' @ i, rawHash = h\<rparr>"

definition seen :: "string \<Rightarrow> string \<Rightarrow> seen_entry" where
  "seen i h = \<lparr>entry_id = i, firstSeenAt = 1, entry_rawHash = h, lastNotifiedAt = None,
               deliveryStatus = (\<lambda>c. pending)\<rparr>"

definition store_A1_A3 :: store where
  "store_A1_A3 = [''A1'' \<mapsto> seen ''A1'' ''h1'', ''A3'' \<mapsto> seen ''A3'' ''h3'']"

subsection \<open>Classification and persistence\<close>

lemma partition_new:
  "e \<in> set (new (partition_events st es)) \<longleftrightarrow> e \<in> set es \<and> st (event_id e) = None"
  by (induction es) (auto simp: Let_def split: option.splits)

lemma partition_updated:
  "e \<in> set (updated (partition_events st es)) \<longleftrightarrow>
     e \<in> set es \<and> (\<exists>entry. st (event_id e) = Some entry \<and> entry_rawHash entry \<noteq> rawHash e)"
  by (induction es) (auto simp: Let_def split: option.splits)

lemma partition_unchanged:
  "e \<in> set (unchanged (partition_events st es)) \<longleftrightarrow>
     e \<in> set es \<and> (\<exists>entry. st (event_id e) = Some entry \<and> entry_rawHash entry = rawHash e)"
  by (induction es) (auto simp: Let_def split: option.splits)

lemma persist_event_other:
  "k \<noteq> event_id e \<Longrightarrow> persist_event now st e k = st k"
  by (simp add: persist_event_def split: option.splits)

lemma persist_event_self:
  "\<exists>entry. persist_event now st e (event_id e) = Some entry \<and> entry_rawHash entry = rawHash e"
  by (simp add: persist_event_def split: option.splits)

lemma foldl_persist_other:
  "k \<notin> event_id ` set es \<Longrightarrow> foldl (persist_event now) st es k = st k"
  by (induction es arbitrary: st) (auto simp: persist_event_other)

lemma foldl_persist_member:
  "distinct (map event_id es) \<Longrightarrow> e \<in> set es \<Longrightarrow>
   \<exists>entry. foldl (persist_event now) st es (event_id e) = Some entry
           \<and> entry_rawHash entry = rawHash e"
proof (induction es arbitrary: st)
  case Nil
  then show ?case by simp
next
  case (Cons x es)
  show ?case
  proof (cases "e = x")
    case True
    with Cons.prems have "event_id e \<notin> event_id ` set es" by auto
    then have "foldl (persist_event now) (persist_event now st x) es (event_id e)
                 = persist_event now st x (event_id e)"
      by (rule foldl_persist_other)
    with True persist_event_self[of now st x] show ?thesis by simp
  next
    case False
    with Cons.prems have "e \<in> set es" "distinct (map event_id es)" by auto
    from Cons.IH[OF this(2) this(1)] show ?thesis by simp
  qed
qed

lemma partition_events_filter:
  "new (partition_events st es) = filter (\<lambda>e. st (event_id e) = None) es"
  "updated (partition_events st es)
     = filter (\<lambda>e. \<exists>entry. st (event_id e) = Some entry \<and> entry_rawHash entry \<noteq> rawHash e) es"
  by (induction es) (auto simp: Let_def split: option.splits)

lemma distinct_map_two_filters:
  "distinct (map f xs) \<Longrightarrow> (\<And>x. \<not> (P x \<and> Q x)) \<Longrightarrow>
   distinct (map f (filter P xs @ filter Q xs))"
proof (induction xs)
  case Nil
  then show ?case by simp
next
  case (Cons x xs)
  then have IH: "distinct (map f (filter P xs @ filter Q xs))"
    and fresh: "f x \<notin> f ` set xs" by auto
  from fresh have "f x \<notin> f ` set (filter P xs)" "f x \<notin> f ` set (filter Q xs)" by auto
  with IH Cons.prems(2)[of x] show ?case by auto
qed

lemma foldl_persist_dom:
  "e \<in> set es \<Longrightarrow> foldl (persist_event now) st es (event_id e) \<noteq> None"
proof (induction es arbitrary: st rule: rev_induct)
  case Nil
  then show ?case by simp
next
  case (snoc x es)
  show ?case
  proof (cases "event_id x = event_id e")
    case True
    with persist_event_self[of now "foldl (persist_event now) st es" x]
    show ?thesis by auto
  next
    case False
    with snoc.prems have "e \<in> set es" by auto
    from snoc.IH[OF this] False show ?thesis
      by (simp add: persist_event_other)
  qed
qed

text \<open>
  C2. For every list of events and every store, \<open>diff\<close> puts an event in \<open>new\<close> exactly
  when its id is absent from the store, in \<open>updated\<close> exactly when the id is present with
  a differing \<open>rawHash\<close>, and in \<open>unchanged\<close> exactly when the id is present with the same
  \<open>rawHash\<close>. The store returned with the result holds a row for every new and every
  updated event; when the ids of the input are unique (the invariant of section 3)
  that row carries the event's \<open>rawHash\<close>; and every other row is as it was.
\<close>

theorem diff_classifies_and_persists:
  assumes d: "diff now events st = (r, st')"
  shows "(\<forall>e. e \<in> set (new r) \<longleftrightarrow> e \<in> set events \<and> st (event_id e) = None)
       \<and> (\<forall>e. e \<in> set (updated r) \<longleftrightarrow>
              e \<in> set events
              \<and> (\<exists>entry. st (event_id e) = Some entry \<and> entry_rawHash entry \<noteq> rawHash e))
       \<and> (\<forall>e. e \<in> set (unchanged r) \<longleftrightarrow>
              e \<in> set events
              \<and> (\<exists>entry. st (event_id e) = Some entry \<and> entry_rawHash entry = rawHash e))
       \<and> (\<forall>e \<in> set (new r) \<union> set (updated r). st' (event_id e) \<noteq> None)
       \<and> (distinct (map event_id events) \<longrightarrow>
            (\<forall>e \<in> set (new r) \<union> set (updated r).
               \<exists>entry. st' (event_id e) = Some entry \<and> entry_rawHash entry = rawHash e))
       \<and> (\<forall>k. k \<notin> event_id ` (set (new r) \<union> set (updated r)) \<longrightarrow> st' k = st k)"
proof -
  from d have r: "r = partition_events st events"
    and st': "st' = foldl (persist_event now) st (new r @ updated r)"
    by (auto simp: diff_def Let_def)
  have rows: "\<forall>e \<in> set (new r) \<union> set (updated r). st' (event_id e) \<noteq> None"
  proof
    fix e assume "e \<in> set (new r) \<union> set (updated r)"
    then have "e \<in> set (new r @ updated r)" by simp
    from foldl_persist_dom[OF this] show "st' (event_id e) \<noteq> None" by (simp add: st')
  qed
  have persisted: "distinct (map event_id events) \<longrightarrow>
            (\<forall>e \<in> set (new r) \<union> set (updated r).
               \<exists>entry. st' (event_id e) = Some entry \<and> entry_rawHash entry = rawHash e)"
  proof (intro impI ballI)
    fix e assume ids: "distinct (map event_id events)"
      and "e \<in> set (new r) \<union> set (updated r)"
    then have mem: "e \<in> set (new r @ updated r)" by simp
    have dist: "distinct (map event_id (new r @ updated r))"
      unfolding r partition_events_filter
      by (rule distinct_map_two_filters[OF ids]) auto
    from foldl_persist_member[OF dist mem] show
      "\<exists>entry. st' (event_id e) = Some entry \<and> entry_rawHash entry = rawHash e"
      by (simp add: st')
  qed
  have frame: "\<forall>k. k \<notin> event_id ` (set (new r) \<union> set (updated r)) \<longrightarrow> st' k = st k"
  proof (intro allI impI)
    fix k assume "k \<notin> event_id ` (set (new r) \<union> set (updated r))"
    then have "k \<notin> event_id ` set (new r @ updated r)" by simp
    from foldl_persist_other[OF this] show "st' k = st k" by (simp add: st')
  qed
  show ?thesis
    using rows persisted frame
    by (simp add: r partition_new partition_updated partition_unchanged)
qed

text \<open>
  C2, a concrete run: with A1 and A3 seen before, A1 unchanged, A2 unseen and A3
  edited, the partition is as expected and the rows of A2 and A3 carry the new hashes.
\<close>

theorem diff_classifies_and_persists_witness:
  "distinct (map event_id [hearing ''A1'' ''h1'', hearing ''A2'' ''h2'', hearing ''A3'' ''h4''])
   \<and> fst (diff 7 [hearing ''A1'' ''h1'', hearing ''A2'' ''h2'', hearing ''A3'' ''h4'']
             store_A1_A3)
       = \<lparr>new = [hearing ''A2'' ''h2''], updated = [hearing ''A3'' ''h4''],
          unchanged = [hearing ''A1'' ''h1'']\<rparr>
   \<and> map_option entry_rawHash
         (snd (diff 7 [hearing ''A1'' ''h1'', hearing ''A2'' ''h2'', hearing ''A3'' ''h4'']
                 store_A1_A3) ''A3'') = Some ''h4''
   \<and> map_option entry_rawHash
         (snd (diff 7 [hearing ''A1'' ''h1'', hearing ''A2'' ''h2'', hearing ''A3'' ''h4'']
                 store_A1_A3) ''A2'') = Some ''h2''"
proof -
  let ?es = "[hearing ''A1'' ''h1'', hearing ''A2'' ''h2'', hearing ''A3'' ''h4'']"
  have ids: "distinct (map event_id ?es)" by (simp add: hearing_def)
  have res: "fst (diff 7 ?es store_A1_A3)
       = \<lparr>new = [hearing ''A2'' ''h2''], updated = [hearing ''A3'' ''h4''],
          unchanged = [hearing ''A1'' ''h1'']\<rparr>"
    by (simp add: diff_def Let_def store_A1_A3_def hearing_def seen_def)
  have d: "diff 7 ?es store_A1_A3 = (fst (diff 7 ?es store_A1_A3), snd (diff 7 ?es store_A1_A3))"
    by simp
  from diff_classifies_and_persists[OF d] ids res
  have "\<forall>e \<in> {hearing ''A2'' ''h2'', hearing ''A3'' ''h4''}.
          \<exists>entry. snd (diff 7 ?es store_A1_A3) (event_id e) = Some entry
                  \<and> entry_rawHash entry = rawHash e"
    by simp
  then have "map_option entry_rawHash (snd (diff 7 ?es store_A1_A3) ''A3'') = Some ''h4''"
    "map_option entry_rawHash (snd (diff 7 ?es store_A1_A3) ''A2'') = Some ''h2''"
    by (auto simp: hearing_def)
  with ids res show ?thesis by simp
qed


section \<open>The scheduler of the monitoring core\<close>

text \<open>
  Modelled from the spec: the state machine \<open>Idle \<rightarrow> Running \<rightarrow> Idle\<close> of section 4.1.
\<close>

datatype phase = Idle | Running

text \<open>
  Modelled from the spec: what \<open>triggerNow()\<close> reports; a trigger while a cycle runs
  reports "already running" (section 4.1).
\<close>

datatype trigger_result = Started | AlreadyRunning

text \<open>
  Modelled from the spec: a cycle ends normally or by an unrecoverable error; either
  way the scheduler returns to \<open>Idle\<close>, and a failed cycle is logged (section 4.1).
\<close>

datatype cycle_outcome = Succeeded | FailedCycle

text \<open>
  Modelled from the spec: the scheduler instance of sections 4.1 and 9. \<open>in_flight\<close>
  counts the cycles started and not yet ended; \<open>skipped_ticks\<close> and \<open>failed_cycles\<close>
  count what the spec says is logged.
\<close>

record scheduler =
  phase :: phase
  in_flight :: nat
  skipped_ticks :: nat
  failed_cycles :: nat

text \<open>Modelled from the spec: a scheduler starts \<open>Idle\<close> with no cycle in flight.\<close>

definition initial_scheduler :: scheduler where
  "initial_scheduler = \<lparr>phase = Idle, in_flight = 0, skipped_ticks = 0, failed_cycles = 0\<rparr>"

text \<open>Modelled from the spec: starting a cycle is the transition \<open>Idle \<rightarrow> Running\<close>.\<close>

definition start_cycle :: "scheduler \<Rightarrow> scheduler" where
  "start_cycle s = s\<lparr>phase := Running, in_flight := in_flight s + 1\<rparr>"

text \<open>
  Modelled from the spec: \<open>triggerNow()\<close>, section 4.1: a manual trigger while a cycle
  is running is a no-op that reports "already running" rather than queuing.
\<close>

definition triggerNow :: "scheduler \<Rightarrow> trigger_result \<times> scheduler" where
  "triggerNow s = (if phase s = Running then (AlreadyRunning, s) else (Started, start_cycle s))"

text \<open>
  Modelled from the spec: a tick of \<open>runForever\<close>, section 4.1: if a cycle is still
  running when the tick fires, the tick is skipped and logged, not queued.
\<close>

definition tick :: "scheduler \<Rightarrow> scheduler" where
  "tick s = (if phase s = Running then s\<lparr>skipped_ticks := skipped_ticks s + 1\<rparr>
             else start_cycle s)"

text \<open>
  Modelled from the spec: the end of a cycle, \<open>Running \<rightarrow> Idle\<close>, also for a cycle that
  raised an unrecoverable error (section 4.1).
\<close>

definition cycle_ended :: "cycle_outcome \<Rightarrow> scheduler \<Rightarrow> scheduler" where
  "cycle_ended out s =
     (if phase s = Running
      then s\<lparr>phase := Idle, in_flight := in_flight s - 1,
             failed_cycles := (if out = FailedCycle then failed_cycles s + 1
                               else failed_cycles s)\<rparr>
      else s)"

text \<open>
  Modelled from the spec: what can happen to a scheduler (section 4.1): the interval
  fires, \<open>triggerNow()\<close> is called, or the running cycle ends.
\<close>

datatype scheduler_event = Tick | TriggerNow | CycleEnded cycle_outcome

text \<open>Modelled from the spec: the scheduler after one such event.\<close>

fun scheduler_step :: "scheduler \<Rightarrow> scheduler_event \<Rightarrow> scheduler" where
  "scheduler_step s Tick = tick s"
| "scheduler_step s TriggerNow = snd (triggerNow s)"
| "scheduler_step s (CycleEnded out) = cycle_ended out s"

text \<open>
  Modelled from the spec: the states a scheduler reaches are those after a sequence of
  events from the initial state.
\<close>

definition run_scheduler :: "scheduler_event list \<Rightarrow> scheduler" where
  "run_scheduler evs = foldl scheduler_step initial_scheduler evs"

subsection \<open>Non-overlap\<close>

lemma scheduler_step_inv:
  "in_flight s = (if phase s = Running then 1 else 0) \<Longrightarrow>
   in_flight (scheduler_step s ev) = (if phase (scheduler_step s ev) = Running then 1 else 0)"
  by (cases ev) (auto simp: tick_def triggerNow_def cycle_ended_def start_cycle_def)

lemma foldl_scheduler_inv:
  "in_flight s = (if phase s = Running then 1 else 0) \<Longrightarrow>
   in_flight (foldl scheduler_step s evs)
     = (if phase (foldl scheduler_step s evs) = Running then 1 else 0)"
proof (induction evs arbitrary: s)
  case Nil
  then show ?case by simp
next
  case (Cons ev evs)
  from scheduler_step_inv[OF Cons.prems] have
    "in_flight (scheduler_step s ev) = (if phase (scheduler_step s ev) = Running then 1 else 0)" .
  from Cons.IH[OF this] show ?case by simp
qed

lemma run_scheduler_inv:
  "in_flight (run_scheduler evs) = (if phase (run_scheduler evs) = Running then 1 else 0)"
  unfolding run_scheduler_def
  by (rule foldl_scheduler_inv) (simp add: initial_scheduler_def)

text \<open>
  C6. In every state the scheduler reaches, at most one cycle is in flight; and when a
  cycle is \<open>Running\<close>, \<open>triggerNow\<close> reports "already running", returns the scheduler
  unchanged, and still exactly one cycle is in flight.
\<close>

theorem scheduler_non_overlap:
  "in_flight (run_scheduler evs) \<le> 1
   \<and> (phase (run_scheduler evs) = Running
        \<longrightarrow> triggerNow (run_scheduler evs) = (AlreadyRunning, run_scheduler evs)
          \<and> in_flight (snd (triggerNow (run_scheduler evs))) = 1)"
  using run_scheduler_inv[of evs] by (auto simp: triggerNow_def)

text \<open>
  C6, a concrete run: after one tick a cycle is running and \<open>triggerNow\<close> reports
  "already running"; a trigger and a second tick leave one cycle in flight and one
  skipped tick.
\<close>

theorem scheduler_non_overlap_witness:
  "phase (run_scheduler [Tick]) = Running
   \<and> triggerNow (run_scheduler [Tick]) = (AlreadyRunning, run_scheduler [Tick])
   \<and> in_flight (run_scheduler [Tick, TriggerNow, Tick]) = 1
   \<and> skipped_ticks (run_scheduler [Tick, TriggerNow, Tick]) = 1"
proof -
  have r: "phase (run_scheduler [Tick]) = Running"
    by (simp add: run_scheduler_def initial_scheduler_def tick_def start_cycle_def)
  from scheduler_non_overlap[of "[Tick]"] r
  have "triggerNow (run_scheduler [Tick]) = (AlreadyRunning, run_scheduler [Tick])" by simp
  moreover have "in_flight (run_scheduler [Tick, TriggerNow, Tick]) = 1
    \<and> skipped_ticks (run_scheduler [Tick, TriggerNow, Tick]) = 1"
    by (simp add: run_scheduler_def initial_scheduler_def tick_def start_cycle_def triggerNow_def)
  ultimately show ?thesis using r by simp
qed


end
